theory Spec2Isabelle
  imports Main
begin

section \<open>Python runtime: exceptions, indexing, loops\<close>

text \<open>
  The exceptions that the modelled parts of \<^verbatim>\<open>wordguess.py\<close> can raise. A function
  that may raise returns \<open>error + 'a\<close>, with \<open>Inl\<close> for the exception.
\<close>

datatype error = UnboundLocalError | ValueError | IndexError | KeyError | ZeroDivisionError

text \<open>\<^verbatim>\<open>xs[i]\<close> for a non-negative index: IndexError when out of range.\<close>

definition getitem :: "'a list \<Rightarrow> nat \<Rightarrow> error + 'a" where
  "getitem xs i = (if i < length xs then Inr (xs ! i) else Inl IndexError)"

text \<open>
  \<^verbatim>\<open>xs.index(x)\<close>: the first position holding \<open>x\<close>. The source catches the ValueError
  of a missing element at once, so the model returns an option.
\<close>

fun list_index :: "'a list \<Rightarrow> 'a \<Rightarrow> nat option" where
  "list_index [] x = None"
| "list_index (y # ys) x = (if y = x then Some 0 else map_option Suc (list_index ys x))"

text \<open>
  \<^verbatim>\<open>for i in items: body\<close> over a state; an exception raised by the body leaves the loop.
\<close>

fun for_each :: "('i \<Rightarrow> 's \<Rightarrow> error + 's) \<Rightarrow> 'i list \<Rightarrow> 's \<Rightarrow> error + 's" where
  "for_each body [] s = Inr s"
| "for_each body (i # is) s =
     (case body i s of Inl e \<Rightarrow> Inl e | Inr s' \<Rightarrow> for_each body is s')"

section \<open>Scoring a guess (\<^verbatim>\<open>_play_round\<close>, lines 325 to 363)\<close>

text \<open>The colour pair indices that serve as the classification of a position.\<close>

definition MISS_PAIR :: nat where "MISS_PAIR = 4"
definition PARTIAL_PAIR :: nat where "PARTIAL_PAIR = 5"
definition EXACT_PAIR :: nat where "EXACT_PAIR = 6"

text \<open>
  The state of both loops is the pair \<open>(letters, pairs)\<close>: the working copy of the
  secret word, where \<open>None\<close> blanks a letter out, and the colour pair of each position.

  First loop:
  \<^verbatim>\<open>
  for i in range(self._length):
      if guess[i] == word[i]:
          pairs[i] = self._EXACT_PAIR
          letters[i] = None
  \<close>
\<close>

definition exact_body ::
  "'a list \<Rightarrow> 'a list \<Rightarrow> nat \<Rightarrow> 'a option list \<times> nat list \<Rightarrow> error + 'a option list \<times> nat list"
where
  "exact_body word guess i st =
     (case st of (letters, pairs) \<Rightarrow>
        (case getitem guess i of
           Inl e \<Rightarrow> Inl e
         | Inr g \<Rightarrow>
             (case getitem word i of
                Inl e \<Rightarrow> Inl e
              | Inr w \<Rightarrow>
                  if g = w then Inr (letters[i := None], pairs[i := EXACT_PAIR])
                  else Inr (letters, pairs))))"

text \<open>
  Second loop:
  \<^verbatim>\<open>
  for i in range(self._length):
      if pairs[i] == self._EXACT_PAIR:
          continue
      try:
          index = letters.index(guess[i])
          pairs[i] = self._PARTIAL_PAIR
          letters[index] = None
      except ValueError:
          pass
  \<close>
\<close>

definition partial_body ::
  "'a list \<Rightarrow> nat \<Rightarrow> 'a option list \<times> nat list \<Rightarrow> error + 'a option list \<times> nat list"
where
  "partial_body guess i st =
     (case st of (letters, pairs) \<Rightarrow>
        (case getitem pairs i of
           Inl e \<Rightarrow> Inl e
         | Inr p \<Rightarrow>
             if p = EXACT_PAIR then Inr (letters, pairs)
             else
               (case getitem guess i of
                  Inl e \<Rightarrow> Inl e
                | Inr g \<Rightarrow>
                    (case list_index letters (Some g) of
                       Some index \<Rightarrow> Inr (letters[index := None], pairs[i := PARTIAL_PAIR])
                     | None \<Rightarrow> Inr (letters, pairs)))))"

text \<open>
  The whole scoring of one submitted guess: \<^verbatim>\<open>letters = list(word)\<close>,
  \<^verbatim>\<open>pairs = [self._MISS_PAIR] * self._length\<close>, then the two loops. The result is
  \<open>pairs\<close>. The first argument is \<^verbatim>\<open>self._length\<close>.
\<close>

definition score :: "nat \<Rightarrow> 'a list \<Rightarrow> 'a list \<Rightarrow> error + nat list" where
  "score n word guess =
     (case for_each (exact_body word guess) [0..<n] (map Some word, replicate n MISS_PAIR) of
        Inl e \<Rightarrow> Inl e
      | Inr st \<Rightarrow>
          (case for_each (partial_body guess) [0..<n] st of
             Inl e \<Rightarrow> Inl e
           | Inr st' \<Rightarrow> Inr (snd st')))"

section \<open>Painting a scored guess and the round (\<^verbatim>\<open>_play_round\<close>)\<close>

text \<open>
  The curses window is outside the program. A call of \<^verbatim>\<open>self._scr.addstr\<close> is recorded
  as a drawing (row, column, character, colour pair) at the end of the list \<open>scr\<close> and
  is taken to return; \<^verbatim>\<open>refresh\<close> and \<^verbatim>\<open>time.sleep\<close> leave nothing behind.
\<close>

definition BOARD_TOP :: int where "BOARD_TOP = 5"

type_synonym 'a draw = "int \<times> int \<times> 'a \<times> nat"

text \<open>
  The fields of the object that painting reads: \<^verbatim>\<open>self._length\<close>, \<^verbatim>\<open>self._tries\<close>,
  \<^verbatim>\<open>self._max_x\<close> and \<^verbatim>\<open>self._sorted_letters\<close>. A negative length or number of tries
  behaves like 0 in the code modelled here (the loops over \<^verbatim>\<open>range\<close> are empty, the
  \<^verbatim>\<open>while\<close> loop is not entered and \<^verbatim>\<open>max(max_y, 1)\<close> is 1), so both are naturals.
\<close>

record 'a game =
  self_length :: nat
  self_tries :: nat
  self_max_x :: int
  self_sorted_letters :: "'a list"

text \<open>
  \<^verbatim>\<open>_set_board_char\<close>, lines 450 to 473. The character is a single letter, so the test
  \<^verbatim>\<open>len(character) == 1\<close> holds. Python's \<^verbatim>\<open>//\<close> rounds down, like \<open>div\<close> on \<open>int\<close>.
  \<^verbatim>\<open>
  dx = self._max_x // 2 - self._length + 2 * x
  dy = self._BOARD_TOP + y
  if len(character) == 1:
      self._scr.addstr(dy, dx, character, curses.color_pair(pair))
  self._scr.refresh()
  \<close>
\<close>

definition set_board_char :: "'a game \<Rightarrow> nat \<Rightarrow> nat \<Rightarrow> 'a \<Rightarrow> nat \<Rightarrow> 'a draw list \<Rightarrow> 'a draw list" where
  "set_board_char self x y character pair scr =
     (let dx = self_max_x self div 2 - int (self_length self) + 2 * int x;
          dy = BOARD_TOP + int y
      in scr @ [(dy, dx, character, pair)])"

text \<open>
  The number of columns of the letter display, lines 532 to 542 of \<^verbatim>\<open>_set_info_letter\<close>:
  \<^verbatim>\<open>
  count = len(self._sorted_letters)
  max_y = self._tries
  num_cols = math.floor(2 * count / max(max_y, 1))
  if num_cols == 0:
      num_cols = 2
  elif num_cols % 2 == 1:
      num_cols -= 1
  \<close>
  The quotient is a float division followed by \<^verbatim>\<open>math.floor\<close>, which is the integer
  quotient for the sizes of an alphabet. A quotient of 1 leaves \<^verbatim>\<open>num_cols\<close> at 0.
\<close>

definition info_num_cols :: "'a game \<Rightarrow> nat" where
  "info_num_cols self =
     (let count = length (self_sorted_letters self);
          max_y = self_tries self;
          num_cols = (2 * count) div (max max_y 1)
      in if num_cols = 0 then 2
         else if num_cols mod 2 = 1 then num_cols - 1
         else num_cols)"

text \<open>
  The rest of \<^verbatim>\<open>_set_info_letter\<close>, lines 544 to 573:
  \<^verbatim>\<open>
  x_width = 2 * num_cols + int(math.ceil(self._length / 2))
  off_left  = int(math.floor(self._max_x / 2)) - x_width
  off_right = int(math.ceil (self._max_x / 2)) + 3
  col_length = math.floor(count / num_cols)
  index = self._sorted_letters.index(letter)
  x = index %  num_cols
  y = index // num_cols
  x *= 2
  if x < num_cols:
      cx = off_left  + x
  else:
      cx = off_right + x
  cy = self._BOARD_TOP + 2 * y
  self._scr.addstr(cy, cx, letter, curses.color_pair(colour_pair))
  \<close>
  The division \<^verbatim>\<open>count / num_cols\<close> raises ZeroDivisionError when \<^verbatim>\<open>num_cols\<close> is 0, and
  \<^verbatim>\<open>index\<close> raises ValueError for a letter that is not in the list.
\<close>

definition set_info_letter :: "'a game \<Rightarrow> 'a \<Rightarrow> nat \<Rightarrow> 'a draw list \<Rightarrow> error + 'a draw list" where
  "set_info_letter self letter colour_pair scr =
     (let num_cols = info_num_cols self;
          x_width = 2 * int num_cols + int ((self_length self + 1) div 2);
          off_left = self_max_x self div 2 - x_width;
          off_right = (self_max_x self + 1) div 2 + 3
      in if num_cols = 0 then Inl ZeroDivisionError
         else
           (case list_index (self_sorted_letters self) letter of
              None \<Rightarrow> Inl ValueError
            | Some index \<Rightarrow>
                (let x = 2 * (index mod num_cols);
                     y = index div num_cols;
                     cx = (if x < num_cols then off_left + int x else off_right + int x);
                     cy = BOARD_TOP + 2 * int y
                 in Inr (scr @ [(cy, cx, letter, colour_pair)]))))"

text \<open>
  What a round changes: the row \<^verbatim>\<open>position[1]\<close> of the current try, the dictionary
  \<^verbatim>\<open>info_letters\<close>, and the window.
\<close>

record 'a round =
  position_y :: nat
  info_letters :: "'a \<rightharpoonup> nat"
  scr :: "'a draw list"

text \<open>
  The body of the painting loop, lines 366 to 383:
  \<^verbatim>\<open>
  for i in range(self._length):
      self._set_board_char(i, position[1], guess[i], pairs[i])
      if ((pairs[i] == self._EXACT_PAIR) or
          (pairs[i] == self._PARTIAL_PAIR and
           info_letters.get(guess[i], None) != self._EXACT_PAIR) or
          (pairs[i] == self._MISS_PAIR and
           guess[i] not in info_letters)):
          info_letters[guess[i]] = pairs[i]
      self._set_info_letter(guess[i], info_letters[guess[i]])
      time.sleep(0.1)
  \<close>
  Reading \<^verbatim>\<open>info_letters[guess[i]]\<close> raises KeyError when the key is absent.
\<close>

definition paint_body :: "'a game \<Rightarrow> 'a list \<Rightarrow> nat list \<Rightarrow> nat \<Rightarrow> 'a round \<Rightarrow> error + 'a round" where
  "paint_body self guess pairs i st =
     (case getitem guess i of
        Inl e \<Rightarrow> Inl e
      | Inr g \<Rightarrow>
          (case getitem pairs i of
             Inl e \<Rightarrow> Inl e
           | Inr p \<Rightarrow>
               (let scr1 = set_board_char self i (position_y st) g p (scr st);
                    info' =
                      (if p = EXACT_PAIR \<or>
                          (p = PARTIAL_PAIR \<and> info_letters st g \<noteq> Some EXACT_PAIR) \<or>
                          (p = MISS_PAIR \<and> info_letters st g = None)
                       then (info_letters st)(g \<mapsto> p) else info_letters st)
                in (case info' g of
                      None \<Rightarrow> Inl KeyError
                    | Some colour_pair \<Rightarrow>
                        (case set_info_letter self g colour_pair scr1 of
                           Inl e \<Rightarrow> Inl e
                         | Inr scr2 \<Rightarrow> Inr (st\<lparr>info_letters := info', scr := scr2\<rparr>))))))"

text \<open>
  The round, driven by the sequence of submitted guesses: one element for each time the
  player presses Enter with all \<^verbatim>\<open>self._length\<close> letters filled in. The loop runs
  \<^verbatim>\<open>while position[1] < self._tries\<close>; a guess that is not in \<^verbatim>\<open>self._all_words\<close> is
  rejected without being scored; a known guess is scored and painted and, when every
  pair is \<^verbatim>\<open>_EXACT_PAIR\<close>, the round returns True; otherwise \<^verbatim>\<open>position[1]\<close> goes up by
  one. The result is the return value (\<open>None\<close> while the round still waits for input)
  and the state. Not modelled: the editing of the guess buffer key by key, the quit
  key, the first drawing of the empty board and the messages of \<^verbatim>\<open>_message\<close>; none of
  them reads or writes \<^verbatim>\<open>info_letters\<close>, and \<open>scr\<close> holds the drawings of the
  painting loop only.
\<close>

fun play_round ::
  "'a game \<Rightarrow> 'a list set \<Rightarrow> 'a list \<Rightarrow> 'a list list \<Rightarrow> 'a round \<Rightarrow> error + bool option \<times> 'a round"
where
  "play_round self all_words word [] st =
     Inr (if position_y st < self_tries self then None else Some False, st)"
| "play_round self all_words word (guess # rest) st =
     (if \<not> position_y st < self_tries self then Inr (Some False, st)
      else if guess \<notin> all_words then play_round self all_words word rest st
      else
        (case score (self_length self) word guess of
           Inl e \<Rightarrow> Inl e
         | Inr pairs \<Rightarrow>
             (case for_each (paint_body self guess pairs) [0..<self_length self] st of
                Inl e \<Rightarrow> Inl e
              | Inr st' \<Rightarrow>
                  if list_all (\<lambda>p. p = EXACT_PAIR) pairs then Inr (Some True, st')
                  else play_round self all_words word rest
                         (st'\<lparr>position_y := position_y st' + 1\<rparr>))))"

text \<open>The state at the start of a round: row 0 and \<^verbatim>\<open>info_letters = dict()\<close>.\<close>

definition new_round :: "'a round" where
  "new_round = \<lparr>position_y = 0, info_letters = Map.empty, scr = []\<rparr>"

section \<open>Loading the dictionary (\<^verbatim>\<open>WordGuess.__init__\<close>)\<close>

text \<open>
  A Python \<^verbatim>\<open>str\<close> is a sequence of Unicode code points. String literals of the source
  are written through \<open>lit\<close>.
\<close>

type_synonym pystr = "nat list"

definition lit :: "string \<Rightarrow> pystr" where
  "lit s = map of_char s"

text \<open>
  The methods \<^verbatim>\<open>str.strip\<close>, \<^verbatim>\<open>str.upper\<close> and \<^verbatim>\<open>str.isalpha\<close> are decided by the
  Unicode tables of the interpreter, which are not part of the repository. The loader
  takes them as a parameter, so every theorem below holds for the real ones.
\<close>

record str_methods =
  str_strip :: "pystr \<Rightarrow> pystr"
  str_upper :: "pystr \<Rightarrow> pystr"
  str_isalpha :: "pystr \<Rightarrow> bool"

text \<open>The tuple \<^verbatim>\<open>_OFFENSIVE_WORDS\<close>, lines 47 to 65.\<close>

definition OFFENSIVE_WORDS :: "pystr list" where
  "OFFENSIVE_WORDS = map lit
     [''NANY'', ''NAHF'', ''NEFR'', ''NFF'', ''NFFUNG'', ''OYNPXONYY'', ''OYNPXYVFG'',
      ''OVGPU'', ''OYBJWBO'', ''OBBOF'', ''OHTTRE'', ''PUVAX'', ''PUVAXL'', ''PYVG'',
      ''PYVGBEVF'', ''PYVGF'', ''PBPX'', ''PBBA'', ''PBPXFHPXRE'', ''PENC'', ''PHZ'',
      ''PHZZVAT'', ''PHZF'', ''PHAAVYVATHF'', ''PHAG'', ''PHAGRQ'', ''PHAGF'', ''QVPX'',
      ''QVPXF'', ''QBTTVAT'', ''QBAT'', ''QBBPU'', ''RWNPHYNGR'', ''RWNPHYNGRQ'',
      ''RWNPHYNGRF'', ''RWNPHYNGVAT'', ''RWNPHYNGVATF'', ''RWNPHYNGVBA'', ''SNT'',
      ''SNTTBG'', ''SRYPU'', ''SRYPUVAT'', ''SRYYNGR'', ''SRYYNGVB'', ''SVFGVAT'', ''SHPX'',
      ''SHPXRQ'', ''SHPXRE'', ''SHPXVAT'', ''SHPXF'', ''TNATONAT'', ''TNLYBEQ'', ''TLC'',
      ''TLCCRQ'', ''UBZB'', ''UBEAL'', ''VAPRFG'', ''WNC'', ''WVMM'', ''ZNFGHEONGR'', ''ANMV'',
      ''ARTEB'', ''ARTEBF'', ''AVTTRE'', ''AVCCYR'', ''AVCCYRF'', ''AVC'', ''BETNFZ'',
      ''BETNFZF'', ''BETL'', ''CNRQB'', ''CRAVF'', ''CVFF'', ''CBBS'', ''CBEA'', ''CBEAB'',
      ''CEVPX'', ''CEVPXF'', ''CHOR'', ''CHORF'', ''CHFFL'', ''CHFFVRF'', ''DHRRE'', ''DHRREF'',
      ''DHVZ'', ''ENCR'', ''ENCRF'', ''ENCVAT'', ''ENCVFG'', ''FPEBGHZ'', ''FRZRA'', ''FRK'',
      ''FRKL'', ''FUNT'', ''FUNTTVAT'', ''FUVG'', ''FUVGF'', ''FUVGGL'', ''FUNG'', ''FYNIR'',
      ''FYHG'', ''FYHGF'', ''FBQBZVMR'', ''FBQBZBL'', ''FCHAX'', ''GVGF'', ''GVGGVRF'',
      ''GVGGL'', ''GBCYRFF'', ''GENAAL'', ''GJNG'', ''HCFXVEG'', ''INTVAN'', ''IHYIN'',
      ''IVETVA'', ''JNAX'']"

text \<open>
  \<^verbatim>\<open>_rot13upper\<close>:
  \<^verbatim>\<open>''.join(chr((ord(c) - ord('A') + 13) % 26 + ord('A')) for c in word.upper())\<close>.
  Python's \<^verbatim>\<open>%\<close> with a positive modulus is never negative, like \<open>mod\<close> on \<open>int\<close>.
\<close>

definition rot13upper :: "str_methods \<Rightarrow> pystr \<Rightarrow> pystr" where
  "rot13upper db word =
     map (\<lambda>c. nat ((int c - 65 + 13) mod 26 + 65)) (str_upper db word)"

text \<open>
  The slices \<^verbatim>\<open>word[-k:]\<close> and \<^verbatim>\<open>word[:-k]\<close> for \<open>k > 0\<close>; on a word shorter than
  \<open>k\<close> the first is the whole word and the second is empty.
\<close>

definition py_suffix :: "nat \<Rightarrow> 'a list \<Rightarrow> 'a list" where
  "py_suffix k w = drop (length w - k) w"

definition py_prefix :: "nat \<Rightarrow> 'a list \<Rightarrow> 'a list" where
  "py_prefix k w = take (length w - k) w"

text \<open>
  The condition of lines 133 to 145, in the source's order. \<open>all_words\<close> is
  \<^verbatim>\<open>self._all_words\<close> as it is when the line is processed; \<open>len\<close> is the parameter
  \<^verbatim>\<open>length\<close>.
\<close>

definition wanted :: "str_methods \<Rightarrow> int \<Rightarrow> bool \<Rightarrow> pystr \<Rightarrow> pystr set \<Rightarrow> bool" where
  "wanted db len accented word all_words \<longleftrightarrow>
     rot13upper db word \<notin> set OFFENSIVE_WORDS \<and>
     str_isalpha db word \<and>
     int (length word) = len \<and>
     (accented \<or> list_all (\<lambda>c. 65 \<le> c \<and> c \<le> 90) word) \<and>
     \<not> (py_suffix 1 word \<in> set (map lit [''D'', ''R'', ''S'', ''Y'']) \<and>
        py_prefix 1 word \<in> all_words) \<and>
     \<not> (py_suffix 2 word \<in> set (map lit [''ED'', ''ER'', ''ES'', ''LY'']) \<and>
        py_prefix 2 word \<in> all_words) \<and>
     \<not> (py_suffix 3 word \<in> set (map lit [''IES'', ''IED'', ''IER'', ''ING'']) \<and>
        py_prefix 3 word @ lit ''Y'' \<in> all_words) \<and>
     \<not> (py_suffix 3 word = lit ''ING'' \<and>
        (py_prefix 3 word \<in> all_words \<or> py_prefix 3 word @ lit ''E'' \<in> all_words))"

text \<open>
  The variables that the loading loop changes: the local variable \<^verbatim>\<open>word\<close>, which is
  unbound (\<open>None\<close>) until a line has been decoded, and the fields \<^verbatim>\<open>self._words\<close>,
  \<^verbatim>\<open>self._all_words\<close> and \<^verbatim>\<open>self._letters\<close>.
\<close>

record loader =
  local_word :: "pystr option"
  self_words :: "pystr list"
  self_all_words :: "pystr set"
  self_letters :: "nat set"

text \<open>
  One iteration of the loop over \<^verbatim>\<open>fh.readlines()\<close>, lines 101 to 150. A raw line is
  given by the outcome of \<^verbatim>\<open>line.decode()\<close>: \<open>Some text\<close>, or \<open>None\<close> when it raises
  UnicodeDecodeError.
  \<^verbatim>\<open>
  try:
      word = line.decode()
  except UnicodeDecodeError:
      pass
  word = word.strip()
  WORD = word.upper()
  self._all_words.add(WORD)
  if len(word) > 0 and 'A' <= word[0] <= 'Z':
      continue
  word = WORD
  if (...):
      self._words.append(word)
      self._letters.update(word)
  \<close>
  After the \<^verbatim>\<open>except\<close> branch the loop body goes on with the value that \<^verbatim>\<open>word\<close> had
  at the end of the previous iteration; reading it while it is unbound raises
  UnboundLocalError. The progress messages are not modelled.
\<close>

definition load_line ::
  "str_methods \<Rightarrow> int \<Rightarrow> bool \<Rightarrow> pystr option \<Rightarrow> loader \<Rightarrow> error + loader"
where
  "load_line db len accented line st =
     (case (case line of Some text \<Rightarrow> Some text | None \<Rightarrow> local_word st) of
        None \<Rightarrow> Inl UnboundLocalError
      | Some decoded \<Rightarrow>
          (let word = str_strip db decoded;
               WORD = str_upper db word;
               st1 = st\<lparr>self_all_words := insert WORD (self_all_words st)\<rparr>
           in if word \<noteq> [] \<and> 65 \<le> hd word \<and> hd word \<le> 90
              then Inr (st1\<lparr>local_word := Some word\<rparr>)
              else if wanted db len accented WORD (self_all_words st1)
              then Inr (st1\<lparr>local_word := Some WORD,
                            self_words := self_words st1 @ [WORD],
                            self_letters := self_letters st1 \<union> set WORD\<rparr>)
              else Inr (st1\<lparr>local_word := Some WORD\<rparr>)))"

text \<open>The state before the loop, lines 94 to 98, and the whole loop.\<close>

definition new_loader :: loader where
  "new_loader =
     \<lparr>local_word = None, self_words = [], self_all_words = {}, self_letters = {}\<rparr>"

definition load_pass ::
  "str_methods \<Rightarrow> int \<Rightarrow> bool \<Rightarrow> pystr option list \<Rightarrow> error + loader"
where
  "load_pass db len accented lines = for_each (load_line db len accented) lines new_loader"

text \<open>
  The constructor: the loop, then lines 158 to 163,
  \<^verbatim>\<open>if len(self._words) == 0: raise ValueError(...)\<close>. The main program calls
  \<^verbatim>\<open>game.init()\<close> and \<^verbatim>\<open>game.play()\<close> only after the constructor has returned, so an
  \<open>Inl\<close> here means that the game loop is never entered.
\<close>

definition WordGuess_init ::
  "str_methods \<Rightarrow> int \<Rightarrow> bool \<Rightarrow> pystr option list \<Rightarrow> error + loader"
where
  "WordGuess_init db len accented lines =
     (case load_pass db len accented lines of
        Inl e \<Rightarrow> Inl e
      | Inr st \<Rightarrow> if length (self_words st) = 0 then Inl ValueError else Inr st)"

subsection \<open>String methods on Latin-1 text\<close>

text \<open>
  An instance of the string methods for evaluating the loader on concrete dictionaries:
  it agrees with Python on every string whose code points are below 256 and on the
  upper case forms of such strings (white space is 9 to 13, 28 to 32, 133 and 160; the
  upper case of 181 is 924, of 223 the two letters SS, of 255 it is 376; the letters
  924 and 376 are alphabetic and are their own upper case).
\<close>

definition latin1_isspace :: "nat \<Rightarrow> bool" where
  "latin1_isspace c \<longleftrightarrow> c \<in> set [9, 10, 11, 12, 13, 28, 29, 30, 31, 32, 133, 160]"

definition latin1_strip :: "pystr \<Rightarrow> pystr" where
  "latin1_strip s = rev (dropWhile latin1_isspace (rev (dropWhile latin1_isspace s)))"

definition latin1_upper_char :: "nat \<Rightarrow> pystr" where
  "latin1_upper_char c =
     (if 97 \<le> c \<and> c \<le> 122 then [c - 32]
      else if c = 181 then [924]
      else if c = 223 then [83, 83]
      else if (224 \<le> c \<and> c \<le> 246) \<or> (248 \<le> c \<and> c \<le> 254) then [c - 32]
      else if c = 255 then [376]
      else [c])"

definition latin1_isalpha_char :: "nat \<Rightarrow> bool" where
  "latin1_isalpha_char c \<longleftrightarrow>
     (65 \<le> c \<and> c \<le> 90) \<or> (97 \<le> c \<and> c \<le> 122) \<or> c = 170 \<or> c = 181 \<or> c = 186 \<or>
     (192 \<le> c \<and> c \<le> 214) \<or> (216 \<le> c \<and> c \<le> 246) \<or> (248 \<le> c \<and> c \<le> 255) \<or>
     c = 376 \<or> c = 924"

definition latin1 :: str_methods where
  "latin1 = \<lparr>str_strip = latin1_strip,
             str_upper = (\<lambda>s. concat (map latin1_upper_char s)),
             str_isalpha = (\<lambda>s. s \<noteq> [] \<and> list_all latin1_isalpha_char s)\<rparr>"

text \<open>A line of the file that decodes: the text and its newline.\<close>

definition text_line :: "string \<Rightarrow> pystr option" where
  "text_line s = Some (lit s @ [10])"

section \<open>The specified behaviour, for comparison with the code\<close>

subsection \<open>The two-pass scorer as the specification words it\<close>

text \<open>
  The definitions of this subsection follow the specification, not the source: a
  classification is one of Miss, Partial and Exact; pass 1 marks a position Exact when
  the guess letter equals the secret letter there and blanks that letter in a working
  copy, every other position being Miss; pass 2 goes through the positions from left to
  right and, for one not marked Exact, looks for the guess letter in what remains of
  the working copy: when found the position becomes Partial and the first such letter
  is blanked, otherwise the position is left as it is.
\<close>

datatype mark = Miss | Partial | Exact

text \<open>The colour pair that stands for a classification in the code.\<close>

definition pair_of :: "mark \<Rightarrow> nat" where
  "pair_of m = (case m of Miss \<Rightarrow> MISS_PAIR | Partial \<Rightarrow> PARTIAL_PAIR | Exact \<Rightarrow> EXACT_PAIR)"

definition spec_pass1_marks :: "'a list \<Rightarrow> 'a list \<Rightarrow> mark list" where
  "spec_pass1_marks secret guess =
     map (\<lambda>(s, g). if g = s then Exact else Miss) (zip secret guess)"

definition spec_pass1_work :: "'a list \<Rightarrow> 'a list \<Rightarrow> 'a option list" where
  "spec_pass1_work secret guess =
     map (\<lambda>(s, g). if g = s then None else Some s) (zip secret guess)"

fun null_first :: "'a \<Rightarrow> 'a option list \<Rightarrow> 'a option list option" where
  "null_first x [] = None"
| "null_first x (y # ys) =
     (if y = Some x then Some (None # ys) else map_option ((#) y) (null_first x ys))"

fun spec_pass2 :: "'a list \<Rightarrow> mark list \<Rightarrow> 'a option list \<Rightarrow> mark list" where
  "spec_pass2 (g # gs) (m # ms) work =
     (if m = Exact then m # spec_pass2 gs ms work
      else (case null_first g work of
              Some work' \<Rightarrow> Partial # spec_pass2 gs ms work'
            | None \<Rightarrow> m # spec_pass2 gs ms work))"
| "spec_pass2 _ _ work = []"

definition spec_score :: "'a list \<Rightarrow> 'a list \<Rightarrow> mark list" where
  "spec_score secret guess =
     spec_pass2 guess (spec_pass1_marks secret guess) (spec_pass1_work secret guess)"

text \<open>
  The number of positions whose guess letter is \<open>c\<close> and whose colour pair is Exact or
  Partial.
\<close>

definition claimed :: "'a \<Rightarrow> 'a list \<Rightarrow> nat list \<Rightarrow> nat" where
  "claimed c guess pairs =
     length (filter (\<lambda>(g, p). g = c \<and> (p = EXACT_PAIR \<or> p = PARTIAL_PAIR)) (zip guess pairs))"

subsection \<open>The cumulative letter status as the specification words it\<close>

text \<open>
  The definitions of this subsection follow the specification, not the source. The
  precedence Exact > Partial > Miss > unknown is the rank of what is remembered for a
  letter. To upgrade the remembered status of a letter by a new classification is to
  record the new one when it ranks above the remembered one, and to keep the
  remembered one otherwise.
\<close>

definition status_rank :: "nat option \<Rightarrow> nat" where
  "status_rank s =
     (case s of
        None \<Rightarrow> 0
      | Some p \<Rightarrow>
          if p = EXACT_PAIR then 3 else if p = PARTIAL_PAIR then 2
          else if p = MISS_PAIR then 1 else 0)"

definition spec_upgrade :: "('a \<rightharpoonup> nat) \<Rightarrow> 'a \<times> nat \<Rightarrow> ('a \<rightharpoonup> nat)" where
  "spec_upgrade info lp =
     (case lp of (letter, p) \<Rightarrow>
        if status_rank (info letter) < status_rank (Some p) then info(letter \<mapsto> p) else info)"

text \<open>
  The guesses of a sequence that are scored, each with its specified score, when
  \<open>used\<close> tries are used up already: an unknown guess is rejected and uses no try; a
  known guess is scored; the round ends with a guess whose every position is Exact,
  or when the tries are exhausted.
\<close>

fun spec_scored ::
  "nat \<Rightarrow> 'a list set \<Rightarrow> 'a list \<Rightarrow> nat \<Rightarrow> 'a list list \<Rightarrow> ('a list \<times> mark list) list"
where
  "spec_scored tries known secret used [] = []"
| "spec_scored tries known secret used (guess # rest) =
     (if tries \<le> used then []
      else if guess \<notin> known then spec_scored tries known secret used rest
      else (guess, spec_score secret guess) #
             (if list_all (\<lambda>m. m = Exact) (spec_score secret guess) then []
              else spec_scored tries known secret (Suc used) rest))"

text \<open>
  The letters of the scored guesses with the colour pairs of their classifications, in
  the order in which they are painted.
\<close>

definition spec_statuses :: "('a list \<times> mark list) list \<Rightarrow> ('a \<times> nat) list" where
  "spec_statuses rows = concat (map (\<lambda>(guess, ms). zip guess (map pair_of ms)) rows)"

text \<open>
  A dictionary is valid when it holds nothing but the three colour pairs, as every
  dictionary of a round does; \<open>upgraded\<close> relates a dictionary to a later one in
  which no letter has lost rank and every changed letter has gained rank.
\<close>

definition valid_pair :: "nat \<Rightarrow> bool" where
  "valid_pair p \<longleftrightarrow> p = MISS_PAIR \<or> p = PARTIAL_PAIR \<or> p = EXACT_PAIR"

definition valid_info :: "('a \<rightharpoonup> nat) \<Rightarrow> bool" where
  "valid_info info \<longleftrightarrow> (\<forall>c p. info c = Some p \<longrightarrow> valid_pair p)"

definition upgraded :: "('a \<rightharpoonup> nat) \<Rightarrow> ('a \<rightharpoonup> nat) \<Rightarrow> bool" where
  "upgraded info info' \<longleftrightarrow>
     (\<forall>c. status_rank (info c) \<le> status_rank (info' c) \<and>
          (info' c \<noteq> info c \<longrightarrow> status_rank (info c) < status_rank (info' c)))"

section \<open>The loops of the scorer compute the specified scorer\<close>

lemma for_each_append:
  "for_each body (xs @ ys) s =
     (case for_each body xs s of Inl e \<Rightarrow> Inl e | Inr s' \<Rightarrow> for_each body ys s')"
  by (induction xs arbitrary: s) (auto split: sum.splits)

lemma list_index_less: "list_index xs x = Some j \<Longrightarrow> j < length xs"
  by (induction xs arbitrary: j) (auto split: if_splits)

lemma null_first_list_index:
  "null_first x work = map_option (\<lambda>j. work[j := None]) (list_index work (Some x))"
  by (induction work) (auto simp: option.map_comp comp_def)

lemma length_spec_pass2:
  "length gs = length ms \<Longrightarrow> length (spec_pass2 gs ms work) = length gs"
  by (induction gs ms work rule: spec_pass2.induct) (auto split: option.splits)

lemma exact_loop_prefix:
  assumes "length word = n" "length guess = n" "k \<le> n"
  shows "for_each (exact_body word guess) [0..<k] (map Some word, replicate n MISS_PAIR) =
           Inr (map (\<lambda>i. if i < k \<and> guess ! i = word ! i then None else Some (word ! i)) [0..<n],
                map (\<lambda>i. if i < k \<and> guess ! i = word ! i then EXACT_PAIR else MISS_PAIR) [0..<n])"
  using assms(3)
proof (induction k)
  case 0
  have "map Some word = map (\<lambda>i. Some (word ! i)) [0..<n]"
    using assms(1) by (auto intro: nth_equalityI)
  moreover have "replicate n MISS_PAIR = map (\<lambda>i. MISS_PAIR) [0..<n]"
    by (auto intro: nth_equalityI)
  ultimately show ?case by simp
next
  case (Suc k)
  then have k: "k < n" by simp
  have L: "(map (\<lambda>i. if i < k \<and> guess ! i = word ! i then None else Some (word ! i)) [0..<n])
             [k := None] =
           map (\<lambda>i. if i < Suc k \<and> guess ! i = word ! i then None else Some (word ! i)) [0..<n]"
    if "guess ! k = word ! k"
    using that k by (auto intro!: nth_equalityI simp: nth_list_update less_Suc_eq)
  have P: "(map (\<lambda>i. if i < k \<and> guess ! i = word ! i then EXACT_PAIR else MISS_PAIR) [0..<n])
             [k := EXACT_PAIR] =
           map (\<lambda>i. if i < Suc k \<and> guess ! i = word ! i then EXACT_PAIR else MISS_PAIR) [0..<n]"
    if "guess ! k = word ! k"
    using that k by (auto intro!: nth_equalityI simp: nth_list_update less_Suc_eq)
  have L': "map (\<lambda>i. if i < k \<and> guess ! i = word ! i then None else Some (word ! i)) [0..<n] =
           map (\<lambda>i. if i < Suc k \<and> guess ! i = word ! i then None else Some (word ! i)) [0..<n]"
    if "guess ! k \<noteq> word ! k"
    using that by (auto simp: less_Suc_eq)
  have P': "map (\<lambda>i. if i < k \<and> guess ! i = word ! i then EXACT_PAIR else MISS_PAIR) [0..<n] =
           map (\<lambda>i. if i < Suc k \<and> guess ! i = word ! i then EXACT_PAIR else MISS_PAIR) [0..<n]"
    if "guess ! k \<noteq> word ! k"
    using that by (auto simp: less_Suc_eq)
  show ?case
  proof (cases "guess ! k = word ! k")
    case True
    show ?thesis
      using Suc k assms(1,2) True L[OF True] P[OF True]
      by (simp add: for_each_append exact_body_def getitem_def)
  next
    case False
    show ?thesis
      using Suc k assms(1,2) False L'[OF False] P'[OF False]
      by (simp add: for_each_append exact_body_def getitem_def)
  qed
qed

lemma exact_loop:
  assumes "length word = n" "length guess = n"
  shows "for_each (exact_body word guess) [0..<n] (map Some word, replicate n MISS_PAIR) =
           Inr (spec_pass1_work word guess, map pair_of (spec_pass1_marks word guess))"
proof -
  have "map (\<lambda>i. if i < n \<and> guess ! i = word ! i then None else Some (word ! i)) [0..<n] =
        spec_pass1_work word guess"
    using assms by (auto intro!: nth_equalityI simp: spec_pass1_work_def)
  moreover have "map (\<lambda>i. if i < n \<and> guess ! i = word ! i then EXACT_PAIR else MISS_PAIR) [0..<n] =
        map pair_of (spec_pass1_marks word guess)"
    using assms by (auto intro!: nth_equalityI simp: spec_pass1_marks_def pair_of_def)
  ultimately show ?thesis
    using exact_loop_prefix[OF assms, of n] by simp
qed

lemma pair_of_eq_EXACT [simp]: "pair_of m = EXACT_PAIR \<longleftrightarrow> m = Exact"
  by (cases m) (auto simp: pair_of_def EXACT_PAIR_def MISS_PAIR_def PARTIAL_PAIR_def)

lemma partial_loop_suffix:
  assumes "length guess = n"
  shows "k \<le> n \<Longrightarrow> length ms = n \<Longrightarrow>
         \<exists>letters'. for_each (partial_body guess) [k..<n] (letters, map pair_of ms) =
           Inr (letters', map pair_of (take k ms @ spec_pass2 (drop k guess) (drop k ms) letters))"
proof (induction "n - k" arbitrary: k ms letters)
  case 0
  then show ?case by simp
next
  case (Suc d)
  then have k: "k < n" by simp
  have d: "d = n - Suc k" using Suc by simp
  have gk: "drop k guess = guess ! k # drop (Suc k) guess"
    using k assms by (simp add: Cons_nth_drop_Suc)
  have mk: "drop k ms = ms ! k # drop (Suc k) ms"
    using k Suc by (simp add: Cons_nth_drop_Suc)
  have tk: "take (Suc k) ms = take k ms @ [ms ! k]"
    using k Suc by (simp add: take_Suc_conv_app_nth)
  have up: "[k..<n] = k # [Suc k..<n]" using k by (simp add: upt_rec)
  show ?case
  proof (cases "ms ! k = Exact")
    case True
    from Suc.hyps(1)[OF d, of ms letters] k Suc.prems
    obtain l' where "for_each (partial_body guess) [Suc k..<n] (letters, map pair_of ms) =
           Inr (l', map pair_of (take (Suc k) ms @ spec_pass2 (drop (Suc k) guess) (drop (Suc k) ms) letters))"
      by auto
    then show ?thesis
      using True k Suc.prems assms
      by (simp add: up gk mk tk partial_body_def getitem_def)
  next
    case False
    show ?thesis
    proof (cases "list_index letters (Some (guess ! k))")
      case None
      from Suc.hyps(1)[OF d, of ms letters] k Suc.prems
      obtain l' where "for_each (partial_body guess) [Suc k..<n] (letters, map pair_of ms) =
           Inr (l', map pair_of (take (Suc k) ms @ spec_pass2 (drop (Suc k) guess) (drop (Suc k) ms) letters))"
        by auto
      then show ?thesis
        using False None k Suc.prems assms
        by (simp add: up gk mk tk partial_body_def getitem_def null_first_list_index)
    next
      case (Some j)
      let ?ms = "ms[k := Partial]"
      have len: "length ?ms = n" using Suc.prems by simp
      from Suc.hyps(1)[OF d, of ?ms "letters[j := None]"] k len
      obtain l' where "for_each (partial_body guess) [Suc k..<n] (letters[j := None], map pair_of ?ms) =
           Inr (l', map pair_of (take (Suc k) ?ms @ spec_pass2 (drop (Suc k) guess) (drop (Suc k) ?ms) (letters[j := None])))"
        by auto
      moreover have "take (Suc k) ?ms = take k ms @ [Partial]"
        using k Suc.prems by (simp add: take_Suc_conv_app_nth)
      moreover have "(map pair_of ms)[k := PARTIAL_PAIR] = map pair_of ?ms"
        by (simp add: map_update pair_of_def)
      ultimately show ?thesis
        using False Some k Suc.prems assms
        by (simp add: up gk mk partial_body_def getitem_def null_first_list_index)
    qed
  qed
qed

lemma score_refines_spec:
  assumes "length word = n" "length guess = n"
  shows "score n word guess = Inr (map pair_of (spec_score word guess))"
proof -
  have len: "length (spec_pass1_marks word guess) = n"
    using assms by (simp add: spec_pass1_marks_def)
  from partial_loop_suffix[OF assms(2), of 0 "spec_pass1_marks word guess" "spec_pass1_work word guess"] len
  obtain l' where "for_each (partial_body guess) [0..<n]
      (spec_pass1_work word guess, map pair_of (spec_pass1_marks word guess)) =
      Inr (l', map pair_of (spec_score word guess))"
    by (auto simp: spec_score_def)
  then show ?thesis
    by (simp add: score_def exact_loop[OF assms])
qed

lemma pair_of_cases: "pair_of m = MISS_PAIR \<or> pair_of m = PARTIAL_PAIR \<or> pair_of m = EXACT_PAIR"
  by (cases m) (simp_all add: pair_of_def)

lemma pair_of_eq_PARTIAL [simp]: "pair_of m = PARTIAL_PAIR \<longleftrightarrow> m = Partial"
  by (cases m) (simp_all add: pair_of_def EXACT_PAIR_def MISS_PAIR_def PARTIAL_PAIR_def)

lemma pair_of_claimed: "(m = Exact \<or> m = Partial) \<longleftrightarrow> m \<noteq> Miss"
  by (cases m) simp_all

lemma claimed_pair_of:
  "claimed c gs (map pair_of ms) = length (filter (\<lambda>(g, m). g = c \<and> m \<noteq> Miss) (zip gs ms))"
proof -
  have "filter (\<lambda>(g, p). g = c \<and> (p = EXACT_PAIR \<or> p = PARTIAL_PAIR)) (zip gs (map pair_of ms)) =
        map (\<lambda>(g, m). (g, pair_of m)) (filter (\<lambda>(g, m). g = c \<and> m \<noteq> Miss) (zip gs ms))"
    by (induction gs ms rule: list_induct2') (simp_all add: pair_of_claimed)
  then show ?thesis by (simp add: claimed_def)
qed

lemma null_first_count:
  "null_first g work = Some work' \<Longrightarrow>
     count_list work (Some c) = count_list work' (Some c) + (if g = c then 1 else 0)"
  by (induction work arbitrary: work') (auto split: if_splits)

lemma spec_pass2_count:
  "length gs = length ms \<Longrightarrow> Partial \<notin> set ms \<Longrightarrow>
     length (filter (\<lambda>(g, m). g = c \<and> m \<noteq> Miss) (zip gs (spec_pass2 gs ms work))) \<le>
     length (filter (\<lambda>(g, m). g = c \<and> m = Exact) (zip gs ms)) + count_list work (Some c)"
proof (induction gs ms work rule: spec_pass2.induct)
  case (1 g gs m ms work)
  show ?case
  proof (cases "m = Exact")
    case True
    with 1 show ?thesis by simp
  next
    case False
    with "1.prems" have m: "m = Miss" by (cases m) auto
    show ?thesis
    proof (cases "null_first g work")
      case None
      with 1 m show ?thesis by simp
    next
      case (Some work')
      from null_first_count[OF Some, of c] "1.IH"(3)[OF False Some] "1.prems" m Some
      show ?thesis by (auto split: if_splits)
    qed
  qed
qed simp_all

lemma spec_pass1_count:
  "length secret = length guess \<Longrightarrow>
     length (filter (\<lambda>(g, m). g = c \<and> m = Exact) (zip guess (spec_pass1_marks secret guess))) +
     count_list (spec_pass1_work secret guess) (Some c) = count_list secret c"
  by (induction secret guess rule: list_induct2)
     (auto simp: spec_pass1_marks_def spec_pass1_work_def)

lemma spec_pass1_no_Partial: "Partial \<notin> set (spec_pass1_marks secret guess)"
  by (auto simp: spec_pass1_marks_def split: if_splits)

lemma spec_score_count:
  assumes "length secret = length guess"
  shows "length (filter (\<lambda>(g, m). g = c \<and> m \<noteq> Miss) (zip guess (spec_score secret guess)))
           \<le> count_list secret c"
proof -
  have "length guess = length (spec_pass1_marks secret guess)"
    using assms by (simp add: spec_pass1_marks_def)
  from spec_pass2_count[OF this spec_pass1_no_Partial, of c "spec_pass1_work secret guess"]
    spec_pass1_count[OF assms, of c]
  show ?thesis by (simp add: spec_score_def)
qed

lemma score_shape_aux:
  assumes "length word = n" "length guess = n"
  shows "\<exists>ps. score n word guess = Inr ps \<and> length ps = n \<and>
           (\<forall>p \<in> set ps. p = MISS_PAIR \<or> p = PARTIAL_PAIR \<or> p = EXACT_PAIR)"
proof -
  have "length (spec_score word guess) = n"
    using assms by (simp add: spec_score_def length_spec_pass2 spec_pass1_marks_def)
  then show ?thesis
    using score_refines_spec[OF assms] pair_of_cases by auto
qed

section \<open>Properties of the scorer\<close>

text \<open>
  Claim C1. For a secret word and a guess of equal length, the two loops of the code
  compute the two-pass algorithm of the specification: pass 1 marks position \<open>i\<close> Exact
  exactly when \<open>guess[i]\<close> equals \<open>secret[i]\<close> and blanks that letter in the working
  copy; pass 2 then, from left to right over the positions not marked Exact, marks a
  position Partial when its guess letter occurs in the remaining working copy, blanking
  the first such occurrence, and leaves it Miss otherwise. The result of the code is
  the specified result, position by position, written with the colour pairs.
\<close>

theorem score_two_pass:
  "length word = n \<Longrightarrow> length guess = n \<Longrightarrow>
     score n word guess = Inr (map pair_of (spec_score word guess))"
  by (rule score_refines_spec)

theorem score_two_pass_witness:
  "length ''HOUSE'' = 5 \<and> length ''SHOES'' = 5 \<and>
   score 5 ''HOUSE'' ''SHOES'' = Inr (map pair_of (spec_score ''HOUSE'' ''SHOES'')) \<and>
   spec_score ''HOUSE'' ''SHOES'' = [Partial, Partial, Partial, Partial, Miss]"
  using score_two_pass[of "''HOUSE''" 5 "''SHOES''"]
  by (simp add: spec_score_def spec_pass1_marks_def spec_pass1_work_def)

text \<open>
  Claim C2. For a secret word and a guess of equal length the scorer returns (it does
  not raise) a sequence whose length is the word length, and every element is the
  colour pair of Miss, of Partial or of Exact.
\<close>

theorem score_shape:
  assumes "length word = n" "length guess = n"
  shows "\<exists>ps. score n word guess = Inr ps \<and> length ps = n \<and>
           (\<forall>p \<in> set ps. p = MISS_PAIR \<or> p = PARTIAL_PAIR \<or> p = EXACT_PAIR)"
  using score_shape_aux[OF assms] .

theorem score_shape_witness:
  "length ''ALLOY'' = 5 \<and> length ''LLAMA'' = 5 \<and>
   (\<exists>ps. score 5 ''ALLOY'' ''LLAMA'' = Inr ps \<and> length ps = 5 \<and>
      (\<forall>p \<in> set ps. p = MISS_PAIR \<or> p = PARTIAL_PAIR \<or> p = EXACT_PAIR))"
  using score_shape[of "''ALLOY''" 5 "''LLAMA''"] by simp

text \<open>
  Claim C5. For the secret ALLOY and the guess LOLLY the scorer gives: position 0
  Partial, position 1 Partial, position 2 Exact, position 3 Miss, position 4 Exact.
\<close>

theorem score_ALLOY_LOLLY:
  "score 5 ''ALLOY'' ''LOLLY'' =
     Inr [PARTIAL_PAIR, PARTIAL_PAIR, EXACT_PAIR, MISS_PAIR, EXACT_PAIR]"
  by code_simp

text \<open>
  Claim C10. For a secret word and a guess of equal length and every letter \<open>c\<close>, the
  number of positions whose guess letter is \<open>c\<close> that the scorer marks Exact or
  Partial is at most the number of occurrences of \<open>c\<close> in the secret word.
\<close>

theorem score_claims_bounded:
  assumes "length word = n" "length guess = n"
  shows "\<exists>ps. score n word guess = Inr ps \<and> claimed c guess ps \<le> count_list word c"
  using score_refines_spec[OF assms] spec_score_count[of word guess c] assms
  by (simp add: claimed_pair_of)

theorem score_claims_bounded_witness:
  "length ''ALLOY'' = 5 \<and> length ''LOLLY'' = 5 \<and>
   (\<exists>ps. score 5 ''ALLOY'' ''LOLLY'' = Inr ps \<and>
      claimed CHR ''L'' ''LOLLY'' ps \<le> count_list ''ALLOY'' CHR ''L'')"
  using score_claims_bounded[of "''ALLOY''" 5 "''LOLLY''" "CHR ''L''"] by simp

section \<open>Properties of the cumulative letter status\<close>

lemma status_rank_simps [simp]:
  "status_rank None = 0"
  "status_rank (Some MISS_PAIR) = 1"
  "status_rank (Some PARTIAL_PAIR) = 2"
  "status_rank (Some EXACT_PAIR) = 3"
  by (simp_all add: status_rank_def MISS_PAIR_def PARTIAL_PAIR_def EXACT_PAIR_def)

lemma pairs_distinct [simp]:
  "MISS_PAIR \<noteq> PARTIAL_PAIR" "MISS_PAIR \<noteq> EXACT_PAIR" "PARTIAL_PAIR \<noteq> EXACT_PAIR"
  "PARTIAL_PAIR \<noteq> MISS_PAIR" "EXACT_PAIR \<noteq> MISS_PAIR" "EXACT_PAIR \<noteq> PARTIAL_PAIR"
  by (simp_all add: MISS_PAIR_def PARTIAL_PAIR_def EXACT_PAIR_def)

lemma status_rank_le_3: "status_rank s \<le> 3"
  by (simp add: status_rank_def split: option.splits)

lemma for_each_snoc:
  "for_each body (xs @ [x]) s = Inr s' \<longleftrightarrow>
     (\<exists>t. for_each body xs s = Inr t \<and> body x t = Inr s')"
  by (auto simp: for_each_append split: sum.splits)

lemma list_index_None: "list_index xs x = None \<longleftrightarrow> x \<notin> set xs"
  by (induction xs) auto

text \<open>One position of the painting loop.\<close>

lemma paint_body_Inr:
  assumes "paint_body self guess pairs i st = Inr st'"
  shows "i < length guess" and "i < length pairs" and "position_y st' = position_y st"
    and "info_letters st' =
           (if pairs ! i = EXACT_PAIR \<or>
               (pairs ! i = PARTIAL_PAIR \<and> info_letters st (guess ! i) \<noteq> Some EXACT_PAIR) \<or>
               (pairs ! i = MISS_PAIR \<and> info_letters st (guess ! i) = None)
            then (info_letters st)(guess ! i \<mapsto> pairs ! i) else info_letters st)"
  using assms
  by (auto simp: paint_body_def getitem_def Let_def split: if_splits option.splits sum.splits)

lemma code_update_is_spec_upgrade:
  assumes "valid_pair p" "valid_info info"
  shows "(if p = EXACT_PAIR \<or> (p = PARTIAL_PAIR \<and> info g \<noteq> Some EXACT_PAIR) \<or>
             (p = MISS_PAIR \<and> info g = None)
          then info(g \<mapsto> p) else info) = spec_upgrade info (g, p)"
proof -
  from assms(2) have v: "info g = None \<or> info g = Some MISS_PAIR \<or>
      info g = Some PARTIAL_PAIR \<or> info g = Some EXACT_PAIR"
    by (cases "info g") (auto simp: valid_info_def valid_pair_def)
  from assms(1) consider "p = MISS_PAIR" | "p = PARTIAL_PAIR" | "p = EXACT_PAIR"
    by (auto simp: valid_pair_def)
  then show ?thesis
  proof cases
    case 1
    with v show ?thesis by (auto simp: spec_upgrade_def)
  next
    case 2
    with v show ?thesis by (auto simp: spec_upgrade_def)
  next
    case 3
    with v show ?thesis by (auto simp: spec_upgrade_def)
  qed
qed

lemma valid_info_spec_upgrade:
  "valid_pair p \<Longrightarrow> valid_info info \<Longrightarrow> valid_info (spec_upgrade info (g, p))"
  by (auto simp: valid_info_def spec_upgrade_def)

lemma valid_info_foldl:
  "\<forall>lp \<in> set ups. valid_pair (snd lp) \<Longrightarrow> valid_info info \<Longrightarrow>
     valid_info (foldl spec_upgrade info ups)"
proof (induction ups arbitrary: info)
  case Nil
  then show ?case by simp
next
  case (Cons lp ups)
  obtain g p where lp: "lp = (g, p)" by (cases lp)
  with Cons.prems have "valid_info (spec_upgrade info lp)"
    by (simp add: valid_info_spec_upgrade)
  with Cons show ?case by simp
qed

lemma paint_loop_prefix:
  assumes "length guess = n" "length pairs = n" "\<forall>p \<in> set pairs. valid_pair p"
    and "valid_info (info_letters st)"
  shows "k \<le> n \<Longrightarrow> for_each (paint_body self guess pairs) [0..<k] st = Inr st' \<Longrightarrow>
     info_letters st' = foldl spec_upgrade (info_letters st) (take k (zip guess pairs)) \<and>
     position_y st' = position_y st"
proof (induction k arbitrary: st')
  case 0
  then show ?case by simp
next
  case (Suc k)
  from Suc.prems(2) obtain t where t: "for_each (paint_body self guess pairs) [0..<k] st = Inr t"
    and step: "paint_body self guess pairs k t = Inr st'"
    by (auto simp: for_each_snoc)
  from Suc.IH[OF _ t] Suc.prems(1) have ih:
    "info_letters t = foldl spec_upgrade (info_letters st) (take k (zip guess pairs))"
    "position_y t = position_y st" by simp_all
  have k: "k < n" using Suc.prems(1) by simp
  have vp: "valid_pair (pairs ! k)" using assms(2,3) k by simp
  have "\<forall>lp \<in> set (take k (zip guess pairs)). valid_pair (snd lp)"
    using assms(3) by (auto dest!: in_set_takeD set_zip_rightD)
  from valid_info_foldl[OF this assms(4)] ih(1) have vt: "valid_info (info_letters t)" by simp
  have "info_letters st' = spec_upgrade (info_letters t) (guess ! k, pairs ! k)"
    using paint_body_Inr(4)[OF step] code_update_is_spec_upgrade[OF vp vt, of "guess ! k"]
    by simp
  moreover have "take (Suc k) (zip guess pairs) = take k (zip guess pairs) @ [(guess ! k, pairs ! k)]"
    using k assms(1,2) by (simp add: take_Suc_conv_app_nth)
  ultimately show ?case
    using ih paint_body_Inr(3)[OF step] by simp
qed

lemma paint_loop:
  assumes "length guess = n" "length pairs = n" "\<forall>p \<in> set pairs. valid_pair p"
    and "valid_info (info_letters st)"
    and "for_each (paint_body self guess pairs) [0..<n] st = Inr st'"
  shows "info_letters st' = foldl spec_upgrade (info_letters st) (zip guess pairs)"
    and "position_y st' = position_y st"
  using paint_loop_prefix[OF assms(1-4) _ assms(5)] assms(1,2) by simp_all

lemma spec_statuses_Cons:
  "spec_statuses ((guess, ms) # rows) = zip guess (map pair_of ms) @ spec_statuses rows"
  by (simp add: spec_statuses_def)

lemma spec_statuses_Nil: "spec_statuses [] = []"
  by (simp add: spec_statuses_def)

lemma list_all_pair_of: "list_all (\<lambda>p. p = EXACT_PAIR) (map pair_of ms) = list_all (\<lambda>m. m = Exact) ms"
  by (induction ms) simp_all

lemma valid_pair_pair_of: "valid_pair (pair_of m)"
  using pair_of_cases[of m] by (simp add: valid_pair_def)

lemma play_round_info:
  assumes "length word = self_length self"
  shows "\<forall>guess \<in> set guesses. length guess = self_length self \<Longrightarrow>
     valid_info (info_letters st) \<Longrightarrow>
     play_round self all_words word guesses st = Inr (r, st') \<Longrightarrow>
     info_letters st' =
       foldl spec_upgrade (info_letters st)
         (spec_statuses (spec_scored (self_tries self) all_words word (position_y st) guesses))"
proof (induction guesses arbitrary: st)
  case Nil
  then show ?case by (simp add: spec_statuses_Nil)
next
  case (Cons guess rest)
  let ?n = "self_length self"
  let ?ms = "spec_score word guess"
  show ?case
  proof (cases "position_y st < self_tries self")
    case False
    with Cons.prems show ?thesis by (simp add: spec_statuses_Nil)
  next
    case tries: True
    show ?thesis
    proof (cases "guess \<in> all_words")
      case False
      with tries Cons.prems have "play_round self all_words word rest st = Inr (r, st')" by simp
      from Cons.IH[OF _ Cons.prems(2) this] Cons.prems(1) tries False
      show ?thesis by simp
    next
      case True
      from Cons.prems(1) have len: "length guess = ?n" by simp
      have sc: "score ?n word guess = Inr (map pair_of ?ms)"
        by (rule score_refines_spec[OF assms len])
      have lms: "length (map pair_of ?ms) = ?n"
        using score_shape_aux[OF assms len] sc by simp
      have vms: "\<forall>p \<in> set (map pair_of ?ms). valid_pair p"
        by (auto simp: valid_pair_pair_of)
      from Cons.prems(3) tries True sc obtain st1 where
        p1: "for_each (paint_body self guess (map pair_of ?ms)) [0..<?n] st = Inr st1"
        by (auto split: sum.splits)
      note pl = paint_loop[OF len lms vms Cons.prems(2) p1]
      show ?thesis
      proof (cases "list_all (\<lambda>m. m = Exact) ?ms")
        case won: True
        with Cons.prems(3) tries True sc p1 have "st' = st1"
          by (simp add: list_all_pair_of)
        with pl(1) tries True won show ?thesis
          by (simp add: spec_statuses_Cons spec_statuses_Nil)
      next
        case False
        let ?st2 = "st1\<lparr>position_y := position_y st1 + 1\<rparr>"
        from Cons.prems(3) tries True sc p1 False
        have run: "play_round self all_words word rest ?st2 = Inr (r, st')"
          by (simp add: list_all_pair_of)
        have "\<forall>lp \<in> set (zip guess (map pair_of ?ms)). valid_pair (snd lp)"
          using vms by (auto dest!: set_zip_rightD)
        from valid_info_foldl[OF this Cons.prems(2)] pl(1)
        have v2: "valid_info (info_letters ?st2)" by simp
        have rest: "\<forall>guess \<in> set rest. length guess = ?n" using Cons.prems(1) by simp
        from Cons.IH[OF rest v2 run] pl tries True False
        show ?thesis by (simp add: spec_statuses_Cons)
      qed
    qed
  qed
qed

lemma spec_upgrade_rank:
  "status_rank (spec_upgrade info (l, p) c) =
     (if l = c then max (status_rank (Some p)) (status_rank (info c)) else status_rank (info c))"
  by (auto simp: spec_upgrade_def)

lemma foldl_spec_upgrade_rank:
  "status_rank (foldl spec_upgrade info ups c) =
     fold max (map (\<lambda>lp. status_rank (Some (snd lp))) (filter (\<lambda>lp. fst lp = c) ups))
       (status_rank (info c))"
proof (induction ups arbitrary: info)
  case Nil
  then show ?case by simp
next
  case (Cons lp ups)
  obtain l p where lp: "lp = (l, p)" by (cases lp)
  show ?case using Cons.IH[of "spec_upgrade info (l, p)"]
    by (simp add: lp spec_upgrade_rank)
qed

lemma upgraded_refl: "upgraded info info"
  by (simp add: upgraded_def)

lemma upgraded_trans:
  assumes "upgraded a b" "upgraded b c"
  shows "upgraded a c"
  unfolding upgraded_def
proof (intro allI conjI impI)
  fix x
  from assms have 1: "status_rank (a x) \<le> status_rank (b x)" "status_rank (b x) \<le> status_rank (c x)"
    by (simp_all add: upgraded_def)
  then show "status_rank (a x) \<le> status_rank (c x)" by simp
  assume ne: "c x \<noteq> a x"
  show "status_rank (a x) < status_rank (c x)"
  proof (cases "b x = a x")
    case True
    with ne have "c x \<noteq> b x" by simp
    with assms(2) have "status_rank (b x) < status_rank (c x)" by (simp add: upgraded_def)
    with True show ?thesis by simp
  next
    case False
    with assms(1) have "status_rank (a x) < status_rank (b x)" by (simp add: upgraded_def)
    with 1 show ?thesis by simp
  qed
qed

lemma upgraded_spec_upgrade: "upgraded info (spec_upgrade info lp)"
  by (cases lp) (auto simp: upgraded_def spec_upgrade_def)

lemma upgraded_foldl: "upgraded info (foldl spec_upgrade info ups)"
proof (induction ups arbitrary: info)
  case Nil
  then show ?case by (simp add: upgraded_refl)
next
  case (Cons lp ups)
  from upgraded_trans[OF upgraded_spec_upgrade Cons.IH] show ?case by simp
qed

lemma upgraded_keeps_EXACT:
  assumes "upgraded a b" "a c = Some EXACT_PAIR"
  shows "b c = Some EXACT_PAIR"
proof (rule ccontr)
  assume "b c \<noteq> Some EXACT_PAIR"
  with assms(2) have "b c \<noteq> a c" by simp
  moreover from assms(1) have "b c \<noteq> a c \<longrightarrow> status_rank (a c) < status_rank (b c)"
    by (simp add: upgraded_def)
  ultimately have "status_rank (a c) < status_rank (b c)" by simp
  with assms(2) status_rank_le_3[of "b c"] show False by simp
qed

lemma paint_body_returns:
  assumes "i < length guess" "i < length pairs" "valid_pair (pairs ! i)"
    and "info_num_cols self \<noteq> 0" "guess ! i \<in> set (self_sorted_letters self)"
  shows "\<exists>st'. paint_body self guess pairs i st = Inr st'"
proof -
  from assms(5) obtain index where ix: "list_index (self_sorted_letters self) (guess ! i) = Some index"
    using list_index_None[of "self_sorted_letters self" "guess ! i"] by auto
  from assms(3) consider "pairs ! i = MISS_PAIR" | "pairs ! i = PARTIAL_PAIR" | "pairs ! i = EXACT_PAIR"
    by (auto simp: valid_pair_def)
  then show ?thesis
  proof cases
    case 1
    with assms(1,2,4) ix show ?thesis
      by (cases "info_letters st (guess ! i)")
         (auto simp: paint_body_def set_info_letter_def getitem_def Let_def)
  next
    case 2
    with assms(1,2,4) ix show ?thesis
      by (cases "info_letters st (guess ! i)")
         (auto simp: paint_body_def set_info_letter_def getitem_def Let_def)
  next
    case 3
    with assms(1,2,4) ix show ?thesis
      by (auto simp: paint_body_def set_info_letter_def getitem_def Let_def)
  qed
qed

lemma paint_loop_returns:
  assumes "length guess = n" "length pairs = n" "\<forall>p \<in> set pairs. valid_pair p"
    and "info_num_cols self \<noteq> 0" "set guess \<subseteq> set (self_sorted_letters self)"
  shows "k \<le> n \<Longrightarrow> \<exists>st'. for_each (paint_body self guess pairs) [0..<k] st = Inr st'"
proof (induction k)
  case 0
  then show ?case by simp
next
  case (Suc k)
  then obtain t where t: "for_each (paint_body self guess pairs) [0..<k] st = Inr t" by auto
  from Suc.prems assms have "k < length guess" "k < length pairs" "valid_pair (pairs ! k)"
    "guess ! k \<in> set (self_sorted_letters self)" by auto
  from paint_body_returns[OF this(1-3) assms(4) this(4), of t]
  obtain st' where "paint_body self guess pairs k t = Inr st'" ..
  with t have "for_each (paint_body self guess pairs) ([0..<k] @ [k]) st = Inr st'"
    by (simp add: for_each_snoc)
  then show ?case by auto
qed

lemma play_round_returns:
  assumes "length word = self_length self" "info_num_cols self \<noteq> 0"
  shows "\<forall>guess \<in> set guesses. length guess = self_length self \<and>
           set guess \<subseteq> set (self_sorted_letters self) \<Longrightarrow>
         \<exists>r st'. play_round self all_words word guesses st = Inr (r, st')"
proof (induction guesses arbitrary: st)
  case Nil
  then show ?case by simp
next
  case (Cons guess rest)
  let ?n = "self_length self"
  from Cons.prems have len: "length guess = ?n"
    and sub: "set guess \<subseteq> set (self_sorted_letters self)"
    and rest: "\<forall>guess \<in> set rest. length guess = ?n \<and> set guess \<subseteq> set (self_sorted_letters self)"
    by simp_all
  from score_shape_aux[OF assms(1) len] obtain pairs where
    ps: "score ?n word guess = Inr pairs" "length pairs = ?n" "\<forall>p \<in> set pairs. valid_pair p"
    by (auto simp: valid_pair_def)
  from paint_loop_returns[OF len ps(2,3) assms(2) sub, of ?n st]
  obtain st1 where p1: "for_each (paint_body self guess pairs) [0..<?n] st = Inr st1" by auto
  from Cons.IH[OF rest, of st] Cons.IH[OF rest, of "st1\<lparr>position_y := position_y st1 + 1\<rparr>"]
  show ?case by (auto simp: ps(1) p1)
qed

text \<open>
  A round evaluated: the secret is ALLOY, the known words are HOUSE, LOLLY and ALLOY,
  the alphabet has the 8 letters of these words and there are 6 tries. HELLO is
  rejected, the round is won on row 2, and the letters A, E, H, L, O, S, U, Y end with
  the statuses shown.
\<close>

lemma play_round_example:
  "map_sum id (\<lambda>(r, st). (r, position_y st, map (info_letters st) ''AEHLOSUY''))
     (play_round \<lparr>self_length = 5, self_tries = 6, self_max_x = 80,
                  self_sorted_letters = ''AEHLOSUY''\<rparr>
        {''HOUSE'', ''LOLLY'', ''ALLOY''} ''ALLOY'' [''HOUSE'', ''HELLO'', ''LOLLY'', ''ALLOY'']
        new_round) =
   Inr (Some True, 2,
        [Some EXACT_PAIR, Some MISS_PAIR, Some MISS_PAIR, Some EXACT_PAIR,
         Some EXACT_PAIR, Some MISS_PAIR, Some MISS_PAIR, Some EXACT_PAIR])"
  by code_simp

text \<open>
  With an alphabet of 4 letters and 6 tries the quotient of the letter display is 1,
  \<^verbatim>\<open>num_cols\<close> becomes 0 and painting the first letter raises ZeroDivisionError.
\<close>

lemma play_round_painting_raises:
  "play_round \<lparr>self_length = 5, self_tries = 6, self_max_x = 80, self_sorted_letters = ''ALOY''\<rparr>
     {''LOLLY'', ''ALLAY'', ''ALLOY''} ''ALLOY'' [''LOLLY'', ''ALLAY'', ''ALLOY''] new_round =
   Inl ZeroDivisionError"
  by code_simp

text \<open>
  Claim C8. For every sequence of guesses submitted within a round, starting from any
  valid letter dictionary (the round starts from the empty one): when the round
  returns, the dictionary is exactly the one obtained by upgrading, in painting order,
  the remembered status of each letter of each scored guess by the classification the
  scorer gave it, where the scored guesses are the known words up to the winning guess
  or the last try. So the rank of the status remembered for a letter is the maximum of
  its rank before and the ranks of the classifications given to that letter; no letter
  loses rank in the precedence Exact > Partial > Miss > unknown; a letter recorded Exact
  stays Exact; and a letter whose status changes has gained rank, so that it takes a
  Partial or Miss label only when nothing of that rank or better was recorded for it.
  (By \<open>play_round_returns\<close> the round does return when \<^verbatim>\<open>num_cols\<close> is not 0 and the
  letters of the guesses are in the alphabet.)
\<close>

theorem info_letters_never_downgrade:
  assumes "length word = self_length self"
    and "\<forall>guess \<in> set guesses. length guess = self_length self"
    and "valid_info (info_letters st)"
    and "play_round self all_words word guesses st = Inr (r, st')"
    and "ups = spec_statuses (spec_scored (self_tries self) all_words word (position_y st) guesses)"
  shows "info_letters st' = foldl spec_upgrade (info_letters st) ups \<and>
         (\<forall>c. status_rank (info_letters st' c) =
                Max (set (status_rank (info_letters st c) #
                          map (\<lambda>lp. status_rank (Some (snd lp))) (filter (\<lambda>lp. fst lp = c) ups)))) \<and>
         (\<forall>c. status_rank (info_letters st c) \<le> status_rank (info_letters st' c)) \<and>
         (\<forall>c. info_letters st c = Some EXACT_PAIR \<longrightarrow> info_letters st' c = Some EXACT_PAIR) \<and>
         (\<forall>c. info_letters st' c \<noteq> info_letters st c \<longrightarrow>
              status_rank (info_letters st c) < status_rank (info_letters st' c))"
proof -
  have eq: "info_letters st' = foldl spec_upgrade (info_letters st) ups"
    using play_round_info[OF assms(1-4)] assms(5) by simp
  have up: "upgraded (info_letters st) (info_letters st')"
    using upgraded_foldl[of "info_letters st" ups] eq by simp
  have "\<forall>c. status_rank (info_letters st' c) =
                Max (set (status_rank (info_letters st c) #
                          map (\<lambda>lp. status_rank (Some (snd lp))) (filter (\<lambda>lp. fst lp = c) ups)))"
    using foldl_spec_upgrade_rank[of "info_letters st" ups] eq
    by (simp only: Max.set_eq_fold) simp
  moreover have "\<forall>c. info_letters st c = Some EXACT_PAIR \<longrightarrow> info_letters st' c = Some EXACT_PAIR"
    using upgraded_keeps_EXACT[OF up] by blast
  moreover have "\<forall>c. status_rank (info_letters st c) \<le> status_rank (info_letters st' c)"
    using up by (simp add: upgraded_def)
  moreover have "\<forall>c. info_letters st' c \<noteq> info_letters st c \<longrightarrow>
              status_rank (info_letters st c) < status_rank (info_letters st' c)"
    using up by (simp add: upgraded_def)
  ultimately show ?thesis using eq by blast
qed

theorem info_letters_never_downgrade_witness:
  "length ''ALLOY'' = 5 \<and>
   length ''HOUSE'' = 5 \<and> length ''HELLO'' = 5 \<and> length ''LOLLY'' = 5 \<and>
   valid_info (info_letters (new_round :: char round)) \<and>
   spec_statuses (spec_scored 6 {''HOUSE'', ''LOLLY'', ''ALLOY''} ''ALLOY'' 0
      [''HOUSE'', ''HELLO'', ''LOLLY'', ''ALLOY'']) =
     [(CHR ''H'', MISS_PAIR), (CHR ''O'', PARTIAL_PAIR), (CHR ''U'', MISS_PAIR),
      (CHR ''S'', MISS_PAIR), (CHR ''E'', MISS_PAIR),
      (CHR ''L'', PARTIAL_PAIR), (CHR ''O'', PARTIAL_PAIR), (CHR ''L'', EXACT_PAIR),
      (CHR ''L'', MISS_PAIR), (CHR ''Y'', EXACT_PAIR),
      (CHR ''A'', EXACT_PAIR), (CHR ''L'', EXACT_PAIR), (CHR ''L'', EXACT_PAIR),
      (CHR ''O'', EXACT_PAIR), (CHR ''Y'', EXACT_PAIR)] \<and>
   (\<exists>r st'.
      play_round \<lparr>self_length = 5, self_tries = 6, self_max_x = 80,
                   self_sorted_letters = ''AEHLOSUY''\<rparr>
        {''HOUSE'', ''LOLLY'', ''ALLOY''} ''ALLOY'' [''HOUSE'', ''HELLO'', ''LOLLY'', ''ALLOY'']
        new_round = Inr (r, st') \<and>
      info_letters st' =
        foldl spec_upgrade Map.empty
          [(CHR ''H'', MISS_PAIR), (CHR ''O'', PARTIAL_PAIR), (CHR ''U'', MISS_PAIR),
           (CHR ''S'', MISS_PAIR), (CHR ''E'', MISS_PAIR),
           (CHR ''L'', PARTIAL_PAIR), (CHR ''O'', PARTIAL_PAIR), (CHR ''L'', EXACT_PAIR),
           (CHR ''L'', MISS_PAIR), (CHR ''Y'', EXACT_PAIR),
           (CHR ''A'', EXACT_PAIR), (CHR ''L'', EXACT_PAIR), (CHR ''L'', EXACT_PAIR),
           (CHR ''O'', EXACT_PAIR), (CHR ''Y'', EXACT_PAIR)] \<and>
      status_rank (info_letters st' CHR ''L'') = 3 \<and>
      status_rank (info_letters st' CHR ''S'') = 1)"
proof -
  let ?self = "\<lparr>self_length = 5, self_tries = 6, self_max_x = 80,
                 self_sorted_letters = ''AEHLOSUY''\<rparr>"
  let ?known = "{''HOUSE'', ''LOLLY'', ''ALLOY''}"
  let ?guesses = "[''HOUSE'', ''HELLO'', ''LOLLY'', ''ALLOY'']"
  let ?ups = "[(CHR ''H'', MISS_PAIR), (CHR ''O'', PARTIAL_PAIR), (CHR ''U'', MISS_PAIR),
      (CHR ''S'', MISS_PAIR), (CHR ''E'', MISS_PAIR),
      (CHR ''L'', PARTIAL_PAIR), (CHR ''O'', PARTIAL_PAIR), (CHR ''L'', EXACT_PAIR),
      (CHR ''L'', MISS_PAIR), (CHR ''Y'', EXACT_PAIR),
      (CHR ''A'', EXACT_PAIR), (CHR ''L'', EXACT_PAIR), (CHR ''L'', EXACT_PAIR),
      (CHR ''O'', EXACT_PAIR), (CHR ''Y'', EXACT_PAIR)]"
  have w: "length ''ALLOY'' = self_length ?self" by simp
  have l: "\<forall>guess \<in> set ?guesses. length guess = self_length ?self" by simp
  have v: "valid_info (info_letters (new_round :: char round))"
    by (simp add: valid_info_def new_round_def)
  have u: "?ups = spec_statuses (spec_scored (self_tries ?self) ?known ''ALLOY''
      (position_y (new_round :: char round)) ?guesses)"
    by code_simp
  have "case play_round ?self ?known ''ALLOY'' ?guesses new_round of
          Inl e \<Rightarrow> False | Inr x \<Rightarrow> True"
    by code_simp
  then obtain r st' where run: "play_round ?self ?known ''ALLOY'' ?guesses new_round = Inr (r, st')"
    by (auto split: sum.splits)
  note t = info_letters_never_downgrade[OF w l v run u]
  from t have eq: "info_letters st' = foldl spec_upgrade Map.empty ?ups"
    by (simp add: new_round_def)
  have "status_rank (foldl spec_upgrade Map.empty ?ups CHR ''L'') = 3"
    "status_rank (foldl spec_upgrade Map.empty ?ups CHR ''S'') = 1"
    by code_simp+
  with eq have ranks: "status_rank (info_letters st' CHR ''L'') = 3"
    "status_rank (info_letters st' CHR ''S'') = 1" by simp_all
  have u': "spec_statuses (spec_scored 6 ?known ''ALLOY'' 0 ?guesses) = ?ups"
    using u by (simp add: new_round_def)
  from run eq ranks have "\<exists>r st'. play_round ?self ?known ''ALLOY'' ?guesses new_round = Inr (r, st') \<and>
      info_letters st' = foldl spec_upgrade Map.empty ?ups \<and>
      status_rank (info_letters st' CHR ''L'') = 3 \<and>
      status_rank (info_letters st' CHR ''S'') = 1" by blast
  with v u' show ?thesis by simp
qed

section \<open>Properties of the dictionary loader\<close>

lemma for_each_invariant:
  assumes "for_each body xs s = Inr s'" "I s"
    and "\<And>x t t'. x \<in> set xs \<Longrightarrow> I t \<Longrightarrow> body x t = Inr t' \<Longrightarrow> I t'"
  shows "I s'"
  using assms
proof (induction xs arbitrary: s)
  case Nil
  then show ?case by simp
next
  case (Cons x xs)
  from Cons.prems(1) obtain t where t: "body x s = Inr t" "for_each body xs t = Inr s'"
    by (auto split: sum.splits)
  from Cons.prems(3)[of x s t] t(1) Cons.prems(2) have "I t" by simp
  have "\<And>y u u'. y \<in> set xs \<Longrightarrow> I u \<Longrightarrow> body y u = Inr u' \<Longrightarrow> I u'"
    using Cons.prems(3) by (meson list.set_intros(2))
  from Cons.IH[OF t(2) \<open>I t\<close> this] show ?case .
qed

lemma load_line_Inr:
  assumes "load_line db len accented line st = Inr st'"
  shows "local_word st' \<noteq> None"
    and "self_all_words st \<subseteq> self_all_words st'"
    and "set (self_words st) \<subseteq> set (self_words st')"
    and "\<forall>w \<in> set (self_words st'). w \<in> set (self_words st) \<or>
           (w \<in> self_all_words st' \<and> wanted db len accented w (self_all_words st'))"
  using assms
  by (auto simp: load_line_def Let_def split: option.splits if_splits)

lemma load_line_Inl:
  "load_line db len accented line st = Inl e \<longleftrightarrow>
     e = UnboundLocalError \<and> line = None \<and> local_word st = None"
  by (auto simp: load_line_def Let_def split: option.splits if_splits)

lemma load_loop_bound:
  "local_word st \<noteq> None \<Longrightarrow> \<exists>st'. for_each (load_line db len accented) lines st = Inr st'"
proof (induction lines arbitrary: st)
  case Nil
  then show ?case by simp
next
  case (Cons line lines)
  have "\<exists>t. load_line db len accented line st = Inr t"
  proof (cases "load_line db len accented line st")
    case (Inl e)
    then have "local_word st = None" by (simp add: load_line_Inl)
    with Cons.prems show ?thesis by simp
  next
    case (Inr t)
    then show ?thesis by blast
  qed
  then obtain t where t: "load_line db len accented line st = Inr t" ..
  have "local_word t \<noteq> None" by (rule load_line_Inr(1)[OF t])
  then obtain st' where "for_each (load_line db len accented) lines t = Inr st'"
    using Cons.IH by blast
  then have "for_each (load_line db len accented) (line # lines) st = Inr st'"
    by (simp add: t)
  then show ?case ..
qed

lemma load_loop_Inl:
  assumes "for_each (load_line db len accented) lines st = Inl e"
  shows "e = UnboundLocalError \<and> local_word st = None \<and> (\<exists>rest. lines = None # rest)"
proof (cases lines)
  case Nil
  with assms show ?thesis by simp
next
  case (Cons line rest)
  show ?thesis
  proof (cases "load_line db len accented line st")
    case (Inl e')
    then have 1: "e' = UnboundLocalError" "line = None" "local_word st = None"
      by (simp_all add: load_line_Inl)
    from assms Cons Inl have "e = e'" by simp
    with 1 Cons show ?thesis by simp
  next
    case (Inr t)
    have "local_word t \<noteq> None" by (rule load_line_Inr(1)[OF Inr])
    then obtain st' where "for_each (load_line db len accented) rest t = Inr st'"
      using load_loop_bound by blast
    with assms Cons Inr show ?thesis by simp
  qed
qed

lemma load_loop_words:
  assumes "for_each (load_line db len accented) lines st = Inr st'"
  shows "self_all_words st \<subseteq> self_all_words st' \<and>
         (\<forall>w \<in> set (self_words st'). w \<in> set (self_words st) \<or>
            (w \<in> self_all_words st' \<and>
             (\<exists>A. self_all_words st \<subseteq> A \<and> wanted db len accented w A)))"
proof (rule for_each_invariant[OF assms, where I = "\<lambda>t. self_all_words st \<subseteq> self_all_words t \<and>
         (\<forall>w \<in> set (self_words t). w \<in> set (self_words st) \<or>
            (w \<in> self_all_words t \<and>
             (\<exists>A. self_all_words st \<subseteq> A \<and> wanted db len accented w A)))"])
  show "self_all_words st \<subseteq> self_all_words st \<and>
    (\<forall>w\<in>set (self_words st). w \<in> set (self_words st) \<or>
       w \<in> self_all_words st \<and> (\<exists>A. self_all_words st \<subseteq> A \<and> wanted db len accented w A))"
    by simp
next
  fix x t t'
  assume inv: "self_all_words st \<subseteq> self_all_words t \<and>
    (\<forall>w\<in>set (self_words t). w \<in> set (self_words st) \<or>
       w \<in> self_all_words t \<and> (\<exists>A. self_all_words st \<subseteq> A \<and> wanted db len accented w A))"
    and step: "load_line db len accented x t = Inr t'"
  note s = load_line_Inr[OF step]
  show "self_all_words st \<subseteq> self_all_words t' \<and>
    (\<forall>w\<in>set (self_words t'). w \<in> set (self_words st) \<or>
       w \<in> self_all_words t' \<and> (\<exists>A. self_all_words st \<subseteq> A \<and> wanted db len accented w A))"
  proof (intro conjI ballI)
    show sub: "self_all_words st \<subseteq> self_all_words t'" using inv s(2) by blast
    fix w assume "w \<in> set (self_words t')"
    with s(4) consider "w \<in> set (self_words t)"
      | "w \<in> self_all_words t'" "wanted db len accented w (self_all_words t')" by blast
    then show "w \<in> set (self_words st) \<or>
       w \<in> self_all_words t' \<and> (\<exists>A. self_all_words st \<subseteq> A \<and> wanted db len accented w A)"
    proof cases
      case 1
      with inv s(2) show ?thesis by blast
    next
      case 2
      with sub show ?thesis by blast
    qed
  qed
qed

lemma load_pass_words:
  assumes "load_pass db len accented lines = Inr st"
  shows "\<forall>w \<in> set (self_words st). w \<in> self_all_words st \<and> (\<exists>A. wanted db len accented w A)"
  using load_loop_words[OF assms[unfolded load_pass_def]]
  by (auto simp: new_loader_def)

lemma load_pass_example_A:
  "load_pass latin1 3 False [text_line ''sex'', text_line ''Cat'', text_line ''cat'', None] =
     Inr \<lparr>local_word = Some (lit ''CAT''), self_words = [lit ''CAT''],
          self_all_words = {lit ''SEX'', lit ''CAT''}, self_letters = {67, 65, 84}\<rparr>"
  by code_simp



text \<open>
  Claim C3 says that a line which cannot be decoded is skipped: the load goes on with
  the next line, the line adds nothing to the word set or the pool, and the words of
  the other lines are unaffected. The code catches the UnicodeDecodeError and then
  goes on with the loop body instead of the next line. When the first line of the
  file cannot be decoded, \<^verbatim>\<open>word\<close> is still unbound and the constructor raises
  UnboundLocalError, whatever the rest of the file holds.
\<close>

theorem undecodable_first_line_raises:
  "WordGuess_init db len accented (None # rest) = Inl UnboundLocalError"
  by (simp add: WordGuess_init_def load_pass_def load_line_def new_loader_def)

text \<open>
  On a later line that cannot be decoded, the loop body runs again on the word left by
  the previous line. With accented words allowed, the French word of code points 233,
  116, 233 followed by an undecodable line is put into the pool twice.
\<close>

lemma undecodable_line_repeats_word:
  "map_sum id self_words (WordGuess_init latin1 3 True [Some [233, 116, 233, 10], None]) =
     Inr [[201, 84, 201], [201, 84, 201]]"
  by code_simp




text \<open>
  Claim C6. For every raw dictionary and target length: when the load pass ends with an
  empty pool the constructor raises ValueError, and when it ends with at least one word
  in the pool the constructor succeeds with that state. The load pass itself raises
  only UnboundLocalError, only when the first line cannot be decoded, hence before any
  word has been added, and then the constructor raises as well. In every failing case
  the game loop is not entered.
\<close>

theorem init_fails_iff_pool_empty:
  "(case load_pass db len accented lines of
      Inr st \<Rightarrow>
        (self_words st = [] \<longrightarrow> WordGuess_init db len accented lines = Inl ValueError) \<and>
        (self_words st \<noteq> [] \<longrightarrow> WordGuess_init db len accented lines = Inr st)
    | Inl e \<Rightarrow>
        e = UnboundLocalError \<and> (\<exists>rest. lines = None # rest) \<and>
        WordGuess_init db len accented lines = Inl e)"
proof (cases "load_pass db len accented lines")
  case (Inl e)
  from load_loop_Inl[OF Inl[unfolded load_pass_def]] Inl show ?thesis
    by (simp add: WordGuess_init_def)
next
  case (Inr st)
  then show ?thesis by (simp add: WordGuess_init_def)
qed

theorem init_fails_iff_pool_empty_witness:
  "WordGuess_init latin1 3 False [text_line ''sex'', text_line ''Cat'', text_line ''cat'', None] =
     Inr \<lparr>local_word = Some (lit ''CAT''), self_words = [lit ''CAT''],
          self_all_words = {lit ''SEX'', lit ''CAT''}, self_letters = {67, 65, 84}\<rparr>"
  using init_fails_iff_pool_empty[where db = latin1 and len = 3 and accented = False
      and lines = "[text_line ''sex'', text_line ''Cat'', text_line ''cat'', None]"]
  by (simp add: load_pass_example_A)

text \<open>
  Claim C7. For every raw dictionary and every word in the resulting pool, the rot13 of
  that word (upper case) is not in the blocklist. The words of the pool are upper case
  forms of the lines, so this holds whatever the casing in the file.
\<close>

theorem pool_never_blocklisted:
  "load_pass db len accented lines = Inr st \<Longrightarrow>
     \<forall>w \<in> set (self_words st). rot13upper db w \<notin> set OFFENSIVE_WORDS"
  using load_pass_words by (auto simp: wanted_def)

theorem pool_never_blocklisted_witness:
  "load_pass latin1 3 False [text_line ''sex'', text_line ''Cat'', text_line ''cat'', None] =
     Inr \<lparr>local_word = Some (lit ''CAT''), self_words = [lit ''CAT''],
          self_all_words = {lit ''SEX'', lit ''CAT''}, self_letters = {67, 65, 84}\<rparr> \<and>
   rot13upper latin1 (lit ''SEX'') \<in> set OFFENSIVE_WORDS \<and>
   rot13upper latin1 (lit ''CAT'') \<notin> set OFFENSIVE_WORDS"
proof -
  have "rot13upper latin1 (lit ''SEX'') \<in> set OFFENSIVE_WORDS" by code_simp
  moreover have "rot13upper latin1 (lit ''CAT'') \<notin> set OFFENSIVE_WORDS"
    using pool_never_blocklisted[OF load_pass_example_A] by simp
  ultimately show ?thesis using load_pass_example_A by simp
qed

text \<open>
  Claim C9. For every raw dictionary, every word in the pool is in the set of all
  words; so the secret word of a round, drawn from the pool, passes the membership
  check that \<open>play_round\<close> applies to a submitted guess.
\<close>

theorem pool_subset_all_words:
  "load_pass db len accented lines = Inr st \<Longrightarrow>
     \<forall>word \<in> set (self_words st). word \<in> self_all_words st"
  using load_pass_words by blast

theorem pool_subset_all_words_witness:
  "load_pass latin1 3 False [text_line ''sex'', text_line ''Cat'', text_line ''cat'', None] =
     Inr \<lparr>local_word = Some (lit ''CAT''), self_words = [lit ''CAT''],
          self_all_words = {lit ''SEX'', lit ''CAT''}, self_letters = {67, 65, 84}\<rparr> \<and>
   lit ''CAT'' \<in> {lit ''SEX'', lit ''CAT''}"
  using pool_subset_all_words[OF load_pass_example_A] load_pass_example_A
  by simp

end
